theory Spec2Isabelle
  imports Complex_Main "HOL-Library.Signed_Division"
begin

section \<open>The load-test engine of internal/runner/runner.go\<close>

text \<open>
  The engine runs a pool of worker goroutines that issue HTTP requests and record every
  outcome in one shared \<open>Report\<close>, each update inside \<open>mu.Lock()\<close> / \<open>mu.Unlock()\<close>.
  The embedding is an interleaving model: the state holds the report, the cancellation flag
  of the context, the channels and one program counter per goroutine; an \<open>event\<close> is one
  atomic action of one goroutine or of the environment (the context is cancelled, a timer
  fires, an HTTP exchange ends with some outcome). A run is a list of events, applied in
  order; an event that is not enabled in the current state changes nothing. Every theorem
  quantifies over all such lists, that is over every interleaving and every behaviour of the
  network.

  Go's \<open>int\<close> and \<open>time.Duration\<close> are 64-bit; the counters only ever grow by one per
  request, so they are modelled as unbounded \<open>int\<close>. The target URL, method, headers and
  body only shape the request that is sent; what the exchange returns is the environment's
  choice, so they do not appear in the state.
\<close>

subsection \<open>Report\<close>

record report =
  Duration :: int
  TotalRequests :: int
  Succeeded200 :: int
  StatusCounts :: "int \<rightharpoonup> int"
  Errors :: int

text \<open>\<open>Report{TotalRequests: total, StatusCounts: make(map[int]int)}\<close>; the other fields
  take Go's zero value.\<close>

definition new_report :: "int \<Rightarrow> report" where
  "new_report tot =
     \<lparr>Duration = 0, TotalRequests = tot, Succeeded200 = 0,
      StatusCounts = Map.empty, Errors = 0\<rparr>"

text \<open>Reading a Go map at a missing key gives the zero value.\<close>

definition lookup0 :: "(int \<rightharpoonup> int) \<Rightarrow> int \<Rightarrow> int" where
  "lookup0 m k = (case m k of None \<Rightarrow> 0 | Some v \<Rightarrow> v)"

text \<open>\<open>m[k]++\<close>\<close>

definition incr :: "(int \<rightharpoonup> int) \<Rightarrow> int \<Rightarrow> (int \<rightharpoonup> int)" where
  "incr m k = m(k \<mapsto> lookup0 m k + 1)"

text \<open>The sum of all values of the status histogram.\<close>

definition sum_counts :: "(int \<rightharpoonup> int) \<Rightarrow> int" where
  "sum_counts m = (\<Sum>k\<in>dom m. lookup0 m k)"

subsection \<open>Report.RPS\<close>

text \<open>
  \<open>RPS\<close> computes in \<open>float64\<close>. Each IEEE operation is the exact operation followed by
  rounding; the rounding function is the parameter \<open>rnd\<close> (no operation here overflows or
  divides by zero: the divisor is a positive duration in seconds). \<open>Duration.Seconds\<close> of
  the standard library is
  \<^verbatim>\<open>sec := d / Second; nsec := d % Second; return float64(sec) + float64(nsec)/1e9\<close>
  with Go's truncating integer division.
\<close>

definition Second :: int where
  "Second = 1000000000"

definition Seconds :: "(real \<Rightarrow> real) \<Rightarrow> int \<Rightarrow> real" where
  "Seconds rnd d =
     (let sec = d sdiv Second; nsec = d smod Second
      in rnd (rnd (of_int sec) + rnd (rnd (of_int nsec) / 1000000000)))"

definition RPS :: "(real \<Rightarrow> real) \<Rightarrow> report \<Rightarrow> real" where
  "RPS rnd r =
     (if Duration r \<le> 0 then 0
      else rnd (rnd (of_int (TotalRequests r)) / Seconds rnd (Duration r)))"

subsection \<open>One request attempt\<close>

text \<open>
  What one pass through a worker's loop body meets: \<open>http.NewRequestWithContext\<close> fails,
  \<open>client.Do\<close> fails (connection error, DNS failure, timeout, cancellation), or the
  exchange completes with a status code.
\<close>

datatype attempt = NewRequestFailed | DoFailed | Response int

definition record_error :: "report \<Rightarrow> report" where
  "record_error rep = rep\<lparr>Errors := Errors rep + 1\<rparr>"

definition record_status :: "int \<Rightarrow> report \<Rightarrow> report" where
  "record_status code rep =
     (let rep1 = rep\<lparr>StatusCounts := incr (StatusCounts rep) code\<rparr>
      in if code = 200 then rep1\<lparr>Succeeded200 := Succeeded200 rep1 + 1\<rparr> else rep1)"

text \<open>The loop body of the worker of \<open>RunWithOptions\<close> (lines 76 to 104).\<close>

fun body_count :: "attempt \<Rightarrow> report \<Rightarrow> report" where
  "body_count NewRequestFailed rep = record_error rep"
| "body_count DoFailed rep = record_error rep"
| "body_count (Response code) rep = record_status code rep"

text \<open>The loop body of the workers of \<open>RunForDuration\<close> and \<open>RunForDurationWithRate\<close>
  (lines 169 to 197 and 277 to 305): a completed exchange also counts in \<open>TotalRequests\<close>.\<close>

fun body_timed :: "attempt \<Rightarrow> report \<Rightarrow> report" where
  "body_timed NewRequestFailed rep = record_error rep"
| "body_timed DoFailed rep = record_error rep"
| "body_timed (Response code) rep =
     record_status code (rep\<lparr>TotalRequests := TotalRequests rep + 1\<rparr>)"

text \<open>How many calls of \<open>client.Do\<close> an attempt makes.\<close>

fun do_calls :: "attempt \<Rightarrow> nat" where
  "do_calls NewRequestFailed = 0"
| "do_calls DoFailed = 1"
| "do_calls (Response code) = 1"

subsection \<open>Goroutines, channels and events\<close>

text \<open>Where a worker stands: at the head of its loop, holding a job it has just received
  (before \<open>ctx.Err()\<close> is read), inside the request, or returned.\<close>

datatype wpc = Idle | GotJob | InRequest | Exited

text \<open>The channel of \<open>time.After(d)\<close> delivers one value, to one receiver.\<close>

datatype timer = Armed | Fired | Taken

text \<open>The paced generator: at its outer select, at its inner select (a tick in hand), or
  returned (\<open>jobs\<close> and \<open>genDone\<close> closed).\<close>

datatype gpc = GOuter | GInner | GDone

datatype event =
    Cancel
  | Deadline
  | Tick
  | GenSendTo nat
  | GenSelCtx
  | GenSelEnd
  | GenSelTick
  | GenSend
  | GenLoopEnd
  | Recv nat
  | RangeEnd nat
  | CtxCheck nat
  | SelCtx nat
  | SelEnd nat
  | SelDefault nat
  | Attempt nat attempt

text \<open>The events that end a request attempt; only these touch the report.\<close>

fun is_attempt :: "event \<Rightarrow> bool" where
  "is_attempt (Attempt w a) = True"
| "is_attempt _ = False"

text \<open>The state every mode has: the report, whether \<open>ctx\<close> is done, the workers, and the
  number of \<open>client.Do\<close> calls made so far (the exchanges issued).\<close>

record common =
  rep :: report
  ctx_done :: bool
  pcs :: "wpc list"
  calls :: nat

definition worker_at :: "wpc list \<Rightarrow> nat \<Rightarrow> wpc \<Rightarrow> bool" where
  "worker_at ps w p \<longleftrightarrow> w < length ps \<and> ps ! w = p"

text \<open>\<open>if concurrency < 1 { concurrency = 1 }\<close>, then one worker per unit.\<close>

definition workers :: "int \<Rightarrow> wpc list" where
  "workers concurrency =
     replicate (nat (if concurrency < 1 then 1 else concurrency)) Idle"

text \<open>\<open>wg.Wait()\<close> returns once every worker has returned.\<close>

definition all_exited :: "wpc list \<Rightarrow> bool" where
  "all_exited ps = list_all (\<lambda>p. p = Exited) ps"

subsection \<open>RunWithOptions: a fixed number of requests\<close>

text \<open>\<open>jobs\<close> is unbuffered: a send is one step with the receive of an idle worker. \<open>gen_i\<close>
  is the loop variable of the enqueuing goroutine, \<open>jobs_closed\<close> holds once it returned.\<close>

record cstate = common +
  gen_i :: int
  jobs_closed :: bool

definition cinit :: "int \<Rightarrow> int \<Rightarrow> cstate" where
  "cinit tot concurrency =
     \<lparr>rep = new_report tot, ctx_done = False, pcs = workers concurrency, calls = 0,
      gen_i = 0, jobs_closed = False\<rparr>"

fun cstep :: "int \<Rightarrow> cstate \<Rightarrow> event \<Rightarrow> cstate" where
  "cstep tot s Cancel = s\<lparr>ctx_done := True\<rparr>"
| "cstep tot s (GenSendTo w) =
     (if \<not> jobs_closed s \<and> gen_i s < tot \<and> worker_at (pcs s) w Idle
      then s\<lparr>gen_i := gen_i s + 1, pcs := (pcs s)[w := GotJob]\<rparr> else s)"
| "cstep tot s GenSelCtx =
     (if \<not> jobs_closed s \<and> gen_i s < tot \<and> ctx_done s
      then s\<lparr>jobs_closed := True\<rparr> else s)"
| "cstep tot s GenLoopEnd =
     (if \<not> jobs_closed s \<and> \<not> gen_i s < tot
      then s\<lparr>jobs_closed := True\<rparr> else s)"
| "cstep tot s (RangeEnd w) =
     (if jobs_closed s \<and> worker_at (pcs s) w Idle
      then s\<lparr>pcs := (pcs s)[w := Exited]\<rparr> else s)"
| "cstep tot s (CtxCheck w) =
     (if worker_at (pcs s) w GotJob
      then s\<lparr>pcs := (pcs s)[w := (if ctx_done s then Exited else InRequest)]\<rparr> else s)"
| "cstep tot s (Attempt w a) =
     (if worker_at (pcs s) w InRequest
      then s\<lparr>rep := body_count a (rep s), pcs := (pcs s)[w := Idle],
             calls := calls s + do_calls a\<rparr> else s)"
| "cstep tot s _ = s"

definition crun :: "int \<Rightarrow> int \<Rightarrow> event list \<Rightarrow> cstate" where
  "crun tot concurrency sched = foldl (cstep tot) (cinit tot concurrency) sched"

text \<open>
  The result of \<open>RunWithOptions\<close> under a schedule: \<open>None\<close> while some worker has not
  returned (\<open>wg.Wait()\<close> still blocks), otherwise the report with its duration stamped
  (\<open>elapsed\<close> is \<open>time.Since(start)\<close>) and the error, which is always \<open>nil\<close> (\<open>None\<close>).
\<close>

definition RunWithOptions ::
  "int \<Rightarrow> int \<Rightarrow> event list \<Rightarrow> int \<Rightarrow> (report \<times> string option) option" where
  "RunWithOptions tot concurrency sched elapsed =
     (let s = crun tot concurrency sched
      in if all_exited (pcs s) then Some ((rep s)\<lparr>Duration := elapsed\<rparr>, None) else None)"

subsection \<open>RunForDuration: back-to-back requests until a deadline\<close>

record dstate = common +
  end_ch :: timer

definition dinit :: "int \<Rightarrow> dstate" where
  "dinit concurrency =
     \<lparr>rep = new_report 0, ctx_done = False, pcs = workers concurrency, calls = 0,
      end_ch = Armed\<rparr>"

text \<open>The worker's select has a default branch: it takes a ready channel if there is one
  (either one when both are ready) and falls through to the request otherwise.\<close>

fun dstep :: "dstate \<Rightarrow> event \<Rightarrow> dstate" where
  "dstep s Cancel = s\<lparr>ctx_done := True\<rparr>"
| "dstep s Deadline = (if end_ch s = Armed then s\<lparr>end_ch := Fired\<rparr> else s)"
| "dstep s (SelCtx w) =
     (if worker_at (pcs s) w Idle \<and> ctx_done s
      then s\<lparr>pcs := (pcs s)[w := Exited]\<rparr> else s)"
| "dstep s (SelEnd w) =
     (if worker_at (pcs s) w Idle \<and> end_ch s = Fired
      then s\<lparr>pcs := (pcs s)[w := Exited], end_ch := Taken\<rparr> else s)"
| "dstep s (SelDefault w) =
     (if worker_at (pcs s) w Idle \<and> \<not> ctx_done s \<and> end_ch s \<noteq> Fired
      then s\<lparr>pcs := (pcs s)[w := InRequest]\<rparr> else s)"
| "dstep s (Attempt w a) =
     (if worker_at (pcs s) w InRequest
      then s\<lparr>rep := body_timed a (rep s), pcs := (pcs s)[w := Idle],
             calls := calls s + do_calls a\<rparr> else s)"
| "dstep s _ = s"

definition drun :: "int \<Rightarrow> event list \<Rightarrow> dstate" where
  "drun concurrency sched = foldl dstep (dinit concurrency) sched"

definition RunForDuration ::
  "int \<Rightarrow> event list \<Rightarrow> int \<Rightarrow> (report \<times> string option) option" where
  "RunForDuration concurrency sched elapsed =
     (let s = drun concurrency sched
      in if all_exited (pcs s) then Some ((rep s)\<lparr>Duration := elapsed\<rparr>, None) else None)"

subsection \<open>RunForDurationWithRate: paced requests until a deadline\<close>

text \<open>
  \<open>jobs := make(chan struct{}, 1024)\<close>: the permits are all alike, so the channel is the
  number of permits it holds. The ticker's channel holds at most one tick; a tick that finds
  it full is dropped. A closed channel still hands out what it holds. The ticker interval
  (one second divided by \<open>rps\<close>, at least a nanosecond) only fixes when ticks occur; a
  schedule may hold \<open>Tick\<close> anywhere, which covers every interval.
\<close>

definition jobs_cap :: nat where
  "jobs_cap = 1024"

record rstate = dstate +
  jobs_len :: nat
  tick_pending :: bool
  gen :: gpc

definition rinit :: "int \<Rightarrow> rstate" where
  "rinit concurrency =
     \<lparr>rep = new_report 0, ctx_done = False, pcs = workers concurrency, calls = 0,
      end_ch = Armed, jobs_len = 0, tick_pending = False, gen = GOuter\<rparr>"

fun rstep :: "rstate \<Rightarrow> event \<Rightarrow> rstate" where
  "rstep s Cancel = s\<lparr>ctx_done := True\<rparr>"
| "rstep s Deadline = (if end_ch s = Armed then s\<lparr>end_ch := Fired\<rparr> else s)"
| "rstep s Tick = s\<lparr>tick_pending := True\<rparr>"
| "rstep s GenSelCtx =
     (if gen s \<noteq> GDone \<and> ctx_done s then s\<lparr>gen := GDone\<rparr> else s)"
| "rstep s GenSelEnd =
     (if gen s \<noteq> GDone \<and> end_ch s = Fired then s\<lparr>end_ch := Taken, gen := GDone\<rparr> else s)"
| "rstep s GenSelTick =
     (if gen s = GOuter \<and> tick_pending s
      then s\<lparr>tick_pending := False, gen := GInner\<rparr> else s)"
| "rstep s GenSend =
     (if gen s = GInner \<and> jobs_len s < jobs_cap
      then s\<lparr>jobs_len := jobs_len s + 1, gen := GOuter\<rparr> else s)"
| "rstep s (Recv w) =
     (if worker_at (pcs s) w Idle \<and> 0 < jobs_len s
      then s\<lparr>pcs := (pcs s)[w := GotJob], jobs_len := jobs_len s - 1\<rparr> else s)"
| "rstep s (RangeEnd w) =
     (if worker_at (pcs s) w Idle \<and> jobs_len s = 0 \<and> gen s = GDone
      then s\<lparr>pcs := (pcs s)[w := Exited]\<rparr> else s)"
| "rstep s (CtxCheck w) =
     (if worker_at (pcs s) w GotJob
      then s\<lparr>pcs := (pcs s)[w := (if ctx_done s then Exited else InRequest)]\<rparr> else s)"
| "rstep s (Attempt w a) =
     (if worker_at (pcs s) w InRequest
      then s\<lparr>rep := body_timed a (rep s), pcs := (pcs s)[w := Idle],
             calls := calls s + do_calls a\<rparr> else s)"
| "rstep s _ = s"

definition rrun :: "int \<Rightarrow> event list \<Rightarrow> rstate" where
  "rrun concurrency sched = foldl rstep (rinit concurrency) sched"

text \<open>
  The target rate is a \<open>float64\<close>: a finite number, an infinity or NaN. \<open>rps <= 0\<close> is false
  for NaN.
\<close>

datatype float64 = Finite real | PosInf | NegInf | NaN

fun le_zero :: "float64 \<Rightarrow> bool" where
  "le_zero (Finite x) = (x \<le> 0)"
| "le_zero PosInf = False"
| "le_zero NegInf = True"
| "le_zero NaN = False"

text \<open>With \<open>rps <= 0\<close> the function returns before any goroutine, channel or client exists.
  Otherwise it returns once \<open>genDone\<close> is closed and every worker has returned.\<close>

definition RunForDurationWithRate ::
  "int \<Rightarrow> float64 \<Rightarrow> event list \<Rightarrow> int \<Rightarrow> (report \<times> string option) option" where
  "RunForDurationWithRate concurrency rps sched elapsed =
     (if le_zero rps then Some (new_report 0, None)
      else let s = rrun concurrency sched
           in if gen s = GDone \<and> all_exited (pcs s)
              then Some ((rep s)\<lparr>Duration := elapsed\<rparr>, None) else None)"

text \<open>The number of \<open>client.Do\<close> calls of a call of \<open>RunForDurationWithRate\<close>: on the
  early return no client, channel or worker has been created.\<close>

definition rate_calls :: "int \<Rightarrow> float64 \<Rightarrow> event list \<Rightarrow> nat" where
  "rate_calls concurrency rps sched =
     (if le_zero rps then 0 else calls (rrun concurrency sched))"

section \<open>Notions used in the proofs\<close>

text \<open>
  \<open>tally\<close> is the right-hand side of the accounting equation; \<open>rep_ok\<close> says that the
  histogram has finitely many keys and that the 200 counter agrees with it; \<open>busy\<close> counts
  the workers that hold a job not yet recorded. The invariants \<open>cinv\<close>, \<open>cinv_live\<close>,
  \<open>timed_inv\<close> and \<open>rinv\<close> hold in every reachable state of the respective mode.
  \<open>wind_down\<close> and \<open>close_down\<close> are schedules under which a count-bounded run comes to
  its end: the first after a cancellation (the generator leaves, an exchange in flight
  fails, each worker sees \<open>ctx.Err()\<close> or the closed channel), the second when there is no
  job to hand out. \<open>quiet\<close> describes a run in which nothing has been sent.
\<close>

definition tally :: "report \<Rightarrow> int" where
  "tally r = sum_counts (StatusCounts r) + Errors r"

definition rep_ok :: "report \<Rightarrow> bool" where
  "rep_ok r \<longleftrightarrow> finite (dom (StatusCounts r)) \<and> Succeeded200 r = lookup0 (StatusCounts r) 200"

definition busy :: "wpc list \<Rightarrow> int" where
  "busy ps = (\<Sum>p\<leftarrow>ps. if p = GotJob \<or> p = InRequest then 1 else 0)"

definition cinv :: "int \<Rightarrow> cstate \<Rightarrow> bool" where
  "cinv tot s \<longleftrightarrow>
     rep_ok (rep s) \<and> TotalRequests (rep s) = tot \<and>
     tally (rep s) + busy (pcs s) \<le> gen_i s \<and> gen_i s \<le> max 0 tot \<and>
     int (calls s) \<le> tally (rep s)"

definition cinv_live :: "int \<Rightarrow> cstate \<Rightarrow> bool" where
  "cinv_live tot s \<longleftrightarrow>
     (\<not> ctx_done s \<longrightarrow>
        tally (rep s) + busy (pcs s) = gen_i s \<and>
        (jobs_closed s \<longrightarrow> tot \<le> gen_i s) \<and>
        (Exited \<in> set (pcs s) \<longrightarrow> jobs_closed s))"

definition timed_inv :: "'a common_scheme \<Rightarrow> bool" where
  "timed_inv s \<longleftrightarrow>
     rep_ok (rep s) \<and> TotalRequests (rep s) = sum_counts (StatusCounts (rep s)) \<and>
     int (calls s) \<le> tally (rep s)"

definition rinv :: "rstate \<Rightarrow> bool" where
  "rinv s \<longleftrightarrow> timed_inv s \<and> jobs_len s \<le> jobs_cap"

definition drain :: "nat \<Rightarrow> event list" where
  "drain w = [Attempt w DoFailed, CtxCheck w, RangeEnd w]"

definition wind_down :: "nat \<Rightarrow> event list" where
  "wind_down n = [GenSelCtx, GenLoopEnd] @ concat (map drain [0..<n])"

definition close_down :: "nat \<Rightarrow> event list" where
  "close_down n = GenLoopEnd # concat (map (\<lambda>w. [RangeEnd w]) [0..<n])"

definition quiet :: "cstate \<Rightarrow> bool" where
  "quiet s \<longleftrightarrow> calls s = 0 \<and> gen_i s = 0 \<and> set (pcs s) \<subseteq> {Idle, Exited}"

section \<open>Lemmas\<close>

lemma foldl_invariant:
  assumes "P s" and "\<And>s e. P s \<Longrightarrow> P (f s e)"
  shows "P (foldl f s es)"
  using assms(1) by (induction es arbitrary: s) (simp_all add: assms(2))

lemma lookup0_incr: "lookup0 (incr m k) j = (if j = k then lookup0 m k + 1 else lookup0 m j)"
  by (simp add: incr_def lookup0_def)

lemma dom_incr: "dom (incr m k) = insert k (dom m)"
  by (simp add: incr_def)

lemma sum_counts_incr:
  assumes "finite (dom m)"
  shows "sum_counts (incr m k) = sum_counts m + 1"
proof (cases "k \<in> dom m")
  case True
  then have d: "dom (incr m k) = dom m" by (auto simp: dom_incr)
  have "sum_counts (incr m k) = (\<Sum>j\<in>dom m. lookup0 m j + (if j = k then 1 else 0))"
    unfolding sum_counts_def d by (rule sum.cong) (simp_all add: lookup0_incr)
  also have "\<dots> = sum_counts m + (\<Sum>j\<in>dom m. if j = k then 1 else 0)"
    by (simp add: sum.distrib sum_counts_def)
  also have "(\<Sum>j\<in>dom m. if j = k then 1 else (0::int)) = 1"
    using assms True by (simp add: sum.delta')
  finally show ?thesis .
next
  case False
  then have "sum_counts (incr m k) = lookup0 (incr m k) k + (\<Sum>j\<in>dom m. lookup0 (incr m k) j)"
    using assms by (simp add: sum_counts_def dom_incr)
  also have "(\<Sum>j\<in>dom m. lookup0 (incr m k) j) = (\<Sum>j\<in>dom m. lookup0 m j)"
    using False by (intro sum.cong) (auto simp: lookup0_incr)
  also have "lookup0 (incr m k) k = 1"
  proof -
    have "lookup0 m k = 0" using False by (simp add: lookup0_def domIff)
    then show ?thesis by (simp add: lookup0_incr)
  qed
  finally show ?thesis by (simp add: sum_counts_def)
qed

lemma rep_ok_new: "rep_ok (new_report t)"
  by (simp add: rep_ok_def new_report_def lookup0_def)

lemma rep_ok_error: "rep_ok r \<Longrightarrow> rep_ok (record_error r)"
  by (simp add: rep_ok_def record_error_def)

lemma rep_ok_status: "rep_ok r \<Longrightarrow> rep_ok (record_status c r)"
  by (simp add: rep_ok_def record_status_def Let_def dom_incr lookup0_incr)

lemma rep_ok_body_count: "rep_ok r \<Longrightarrow> rep_ok (body_count a r)"
  by (cases a) (simp_all add: rep_ok_error rep_ok_status)

lemma rep_ok_total: "rep_ok r \<Longrightarrow> rep_ok (r\<lparr>TotalRequests := t\<rparr>)"
  by (simp add: rep_ok_def)

lemma rep_ok_body_timed: "rep_ok r \<Longrightarrow> rep_ok (body_timed a r)"
  by (cases a) (simp_all add: rep_ok_error rep_ok_status rep_ok_total)

lemma tally_error: "tally (record_error r) = tally r + 1"
  by (simp add: tally_def record_error_def)

lemma tally_status: "rep_ok r \<Longrightarrow> tally (record_status c r) = tally r + 1"
  by (simp add: tally_def record_status_def Let_def sum_counts_incr rep_ok_def)

lemma tally_body_count: "rep_ok r \<Longrightarrow> tally (body_count a r) = tally r + 1"
  by (cases a) (simp_all add: tally_error tally_status)

lemma total_body_count: "TotalRequests (body_count a r) = TotalRequests r"
  by (cases a) (simp_all add: record_error_def record_status_def Let_def)

lemma sum_list_update_int:
  "w < length xs \<Longrightarrow> sum_list (xs[w := v]) = sum_list xs - xs ! w + (v::int)"
proof (induction xs arbitrary: w)
  case Nil
  then show ?case by simp
next
  case (Cons x xs)
  then show ?case by (cases w) simp_all
qed

lemma busy_update:
  "worker_at ps w p \<Longrightarrow>
   busy (ps[w := q]) =
     busy ps - (if p = GotJob \<or> p = InRequest then 1 else 0)
             + (if q = GotJob \<or> q = InRequest then 1 else 0)"
  unfolding busy_def worker_at_def
  by (simp add: map_update sum_list_update_int del: list_update_overwrite)

lemma do_calls_le: "int (do_calls a) \<le> 1"
  by (cases a) simp_all

lemma busy_workers: "busy (workers c) = 0"
  by (simp add: busy_def workers_def sum_list_replicate)

lemma tally_new: "tally (new_report t) = 0"
  by (simp add: tally_def new_report_def sum_counts_def)

lemma total_new: "TotalRequests (new_report t) = t"
  by (simp add: new_report_def)

lemma cinv_init: "cinv tot (cinit tot c)"
  by (simp add: cinv_def cinit_def rep_ok_new tally_new total_new busy_workers)

lemma cinv_step: "cinv tot s \<Longrightarrow> cinv tot (cstep tot s e)"
proof (cases e)
  case (Attempt w a)
  assume "cinv tot s"
  then show ?thesis
    using do_calls_le [of a]
    by (auto simp: Attempt cinv_def rep_ok_body_count tally_body_count total_body_count
        busy_update)
qed (auto simp: cinv_def busy_update)

lemma cinv_run: "cinv tot (crun tot c sched)"
  unfolding crun_def by (rule foldl_invariant) (simp_all add: cinv_init cinv_step)

lemma exited_update: "Exited \<in> set (ps[w := q]) \<Longrightarrow> q \<noteq> Exited \<Longrightarrow> Exited \<in> set ps"
  using set_update_subset_insert [of ps w q] by auto

lemma workers_idle: "set (workers c) = {Idle}"
  by (simp add: workers_def)

lemma cinv_live_init: "cinv_live tot (cinit tot c)"
  by (simp add: cinv_live_def cinit_def tally_new busy_workers workers_idle)

lemma cinv_live_step:
  assumes "cinv tot s" and "cinv_live tot s"
  shows "cinv_live tot (cstep tot s e)"
proof (cases e)
  case (Attempt w a)
  then show ?thesis
    using assms
    by (auto simp: cinv_live_def cinv_def tally_body_count busy_update dest: exited_update)
qed (use assms in \<open>auto simp: cinv_live_def busy_update dest: exited_update\<close>)

lemma cinv_both_run: "cinv tot (crun tot c sched) \<and> cinv_live tot (crun tot c sched)"
  unfolding crun_def
  by (rule foldl_invariant [where P = "\<lambda>s. cinv tot s \<and> cinv_live tot s"])
     (simp_all add: cinv_init cinv_live_init cinv_step cinv_live_step)

lemma cstep_ctx_other: "Cancel \<noteq> e \<Longrightarrow> ctx_done (cstep tot s e) = ctx_done s"
  by (cases e) simp_all

lemma cfold_no_cancel:
  "Cancel \<notin> set es \<Longrightarrow> ctx_done (foldl (cstep tot) s es) = ctx_done s"
  by (induction es arbitrary: s) (simp_all add: cstep_ctx_other)

lemma crun_no_cancel: "Cancel \<notin> set sched \<Longrightarrow> \<not> ctx_done (crun tot c sched)"
  by (simp add: crun_def cfold_no_cancel cinit_def)

lemma cstep_length: "length (pcs (cstep tot s e)) = length (pcs s)"
  by (cases e) simp_all

lemma crun_length: "length (pcs (crun tot c sched)) = length (workers c)"
  unfolding crun_def
  by (rule foldl_invariant [where P = "\<lambda>s. length (pcs s) = length (workers c)"])
     (simp_all add: cinit_def cstep_length)

lemma workers_nonempty: "workers c \<noteq> []"
  by (simp add: workers_def)

lemma all_exited_busy: "all_exited ps \<Longrightarrow> busy ps = 0"
  unfolding all_exited_def busy_def by (induction ps) simp_all

lemma all_exited_mem: "all_exited ps \<Longrightarrow> ps \<noteq> [] \<Longrightarrow> Exited \<in> set ps"
  unfolding all_exited_def by (cases ps) simp_all

lemma tally_stamp: "tally (r\<lparr>Duration := d\<rparr>) = tally r"
  by (simp add: tally_def)

lemma rep_ok_stamp: "rep_ok (r\<lparr>Duration := d\<rparr>) = rep_ok r"
  by (simp add: rep_ok_def)

lemma count_result:
  assumes "RunWithOptions tot c sched el = Some (r, err)"
  shows "err = None" and "TotalRequests r = tot" and "rep_ok r" and "tally r \<le> max 0 tot"
    and "Duration r = el"
    and "Cancel \<notin> set sched \<Longrightarrow> 0 \<le> tot \<Longrightarrow> tally r = tot"
proof -
  let ?s = "crun tot c sched"
  from assms have ex: "all_exited (pcs ?s)" and r: "r = (rep ?s)\<lparr>Duration := el\<rparr>"
    and e: "err = None"
    by (auto simp: RunWithOptions_def Let_def split: if_splits)
  have inv: "cinv tot ?s" and live: "cinv_live tot ?s"
    using cinv_both_run by blast+
  show "err = None" by (rule e)
  show "TotalRequests r = tot" using inv by (simp add: r cinv_def)
  show "rep_ok r" using inv by (simp add: r cinv_def rep_ok_stamp)
  show "Duration r = el" by (simp add: r)
  have b: "busy (pcs ?s) = 0" using ex by (rule all_exited_busy)
  show "tally r \<le> max 0 tot" using inv b by (simp add: r cinv_def tally_stamp)
  show "tally r = tot" if nc: "Cancel \<notin> set sched" and pos: "0 \<le> tot"
  proof -
    have nd: "\<not> ctx_done ?s" using nc by (rule crun_no_cancel)
    have "pcs ?s \<noteq> []" using crun_length [of tot c sched] workers_nonempty [of c] by auto
    then have "Exited \<in> set (pcs ?s)" using ex by (simp add: all_exited_mem)
    then have "tot \<le> gen_i ?s" and "tally (rep ?s) = gen_i ?s"
      using live nd b by (simp_all add: cinv_live_def)
    moreover have "gen_i ?s \<le> max 0 tot" using inv by (simp add: cinv_def)
    ultimately show ?thesis using pos by (simp add: r tally_stamp)
  qed
qed

lemma tally_body_timed: "rep_ok r \<Longrightarrow> tally (body_timed a r) = tally r + 1"
  by (cases a) (simp_all add: tally_error tally_status rep_ok_total, simp add: tally_def)

lemma total_body_timed:
  assumes "rep_ok r" and "TotalRequests r = sum_counts (StatusCounts r)"
  shows "TotalRequests (body_timed a r) = sum_counts (StatusCounts (body_timed a r))"
  using assms
  by (cases a) (simp_all add: record_error_def record_status_def Let_def sum_counts_incr rep_ok_def)

lemma timed_inv_attempt:
  assumes "timed_inv s"
  shows "timed_inv (s\<lparr>rep := body_timed a (rep s), pcs := ps, calls := calls s + do_calls a\<rparr>)"
  using assms do_calls_le [of a]
  by (simp add: timed_inv_def rep_ok_body_timed tally_body_timed total_body_timed)

lemma timed_inv_new: "rep_ok (new_report 0) \<and> TotalRequests (new_report 0) = sum_counts (StatusCounts (new_report 0))"
  by (simp add: rep_ok_new) (simp add: new_report_def sum_counts_def)

lemma dinv_init: "timed_inv (dinit c)"
  using timed_inv_new by (simp add: timed_inv_def dinit_def tally_new)

lemma dinv_step: "timed_inv s \<Longrightarrow> timed_inv (dstep s e)"
proof (cases e)
  case (Attempt w a)
  assume "timed_inv s"
  then show ?thesis
    using timed_inv_attempt [of s a] by (simp add: Attempt)
qed (simp_all add: timed_inv_def)

lemma dinv_run: "timed_inv (drun c sched)"
  unfolding drun_def by (rule foldl_invariant) (simp_all add: dinv_init dinv_step)

lemma rinv_init: "rinv (rinit c)"
  using timed_inv_new by (simp add: rinv_def timed_inv_def rinit_def tally_new)

lemma rinv_step: "rinv s \<Longrightarrow> rinv (rstep s e)"
proof (cases e)
  case (Attempt w a)
  assume "rinv s"
  then show ?thesis
    using timed_inv_attempt [of s a] by (simp add: Attempt rinv_def)
qed (auto simp: rinv_def timed_inv_def)

lemma rinv_run: "rinv (rrun c sched)"
  unfolding rrun_def by (rule foldl_invariant) (simp_all add: rinv_init rinv_step)

lemma duration_result:
  assumes "RunForDuration c sched el = Some (r, err)"
  shows "err = None" and "rep_ok r" and "TotalRequests r = sum_counts (StatusCounts r)"
    and "Duration r = el"
proof -
  from assms have r: "r = (rep (drun c sched))\<lparr>Duration := el\<rparr>" and e: "err = None"
    by (auto simp: RunForDuration_def Let_def split: if_splits)
  show "err = None" by (rule e)
  show "rep_ok r" and "TotalRequests r = sum_counts (StatusCounts r)" and "Duration r = el"
    using dinv_run [of c sched] by (simp_all add: r timed_inv_def rep_ok_stamp)
qed

lemma rate_result:
  assumes "RunForDurationWithRate c rps sched el = Some (r, err)"
  shows "err = None" and "rep_ok r" and "TotalRequests r = sum_counts (StatusCounts r)"
proof -
  have "err = None \<and> rep_ok r \<and> TotalRequests r = sum_counts (StatusCounts r)"
  proof (cases "le_zero rps")
    case True
    with assms have "r = new_report 0" and "err = None"
      by (simp_all add: RunForDurationWithRate_def)
    then show ?thesis using timed_inv_new by simp
  next
    case False
    with assms have r: "r = (rep (rrun c sched))\<lparr>Duration := el\<rparr>" and e: "err = None"
      by (auto simp: RunForDurationWithRate_def Let_def split: if_splits)
    show ?thesis
      using rinv_run [of c sched] by (simp add: r e rinv_def timed_inv_def rep_ok_stamp)
  qed
  then show "err = None" and "rep_ok r" and "TotalRequests r = sum_counts (StatusCounts r)"
    by simp_all
qed

lemma update_same: "ps ! w = q \<Longrightarrow> ps[w := q] = ps"
  by auto

lemma sweep:
  fixes f :: "'s \<Rightarrow> event \<Rightarrow> 's" and ps :: "'s \<Rightarrow> wpc list"
  assumes one: "\<And>s w. Q s \<Longrightarrow> w < length (ps s) \<Longrightarrow>
      Q (foldl f s (evs w)) \<and> ps (foldl f s (evs w)) = (ps s)[w := Exited]"
  shows "Q s \<Longrightarrow> \<forall>w\<in>set ws. w < length (ps s) \<Longrightarrow>
     \<forall>i<length (ps s). i \<in> set ws \<or> ps s ! i = Exited \<Longrightarrow>
     all_exited (ps (foldl f s (concat (map evs ws))))"
proof (induction ws arbitrary: s)
  case Nil
  then show ?case by (simp add: all_exited_def list_all_length)
next
  case (Cons w ws)
  let ?s = "foldl f s (evs w)"
  from Cons.prems have w: "w < length (ps s)" by simp
  from one [OF Cons.prems(1) w]
  have q: "Q ?s" and p: "ps ?s = (ps s)[w := Exited]" by simp_all
  have "all_exited (ps (foldl f ?s (concat (map evs ws))))"
  proof (rule Cons.IH [OF q])
    show "\<forall>v\<in>set ws. v < length (ps ?s)" using Cons.prems(2) by (simp add: p)
    show "\<forall>i<length (ps ?s). i \<in> set ws \<or> ps ?s ! i = Exited"
    proof (intro allI impI)
      fix i assume "i < length (ps ?s)"
      then have i: "i < length (ps s)" by (simp add: p)
      show "i \<in> set ws \<or> ps ?s ! i = Exited"
      proof (cases "i = w")
        case True
        then show ?thesis using i by (simp add: p)
      next
        case False
        then show ?thesis using Cons.prems(3) i by (auto simp: p)
      qed
    qed
  qed
  then show ?case by simp
qed

lemma sweep_all:
  fixes f :: "'s \<Rightarrow> event \<Rightarrow> 's" and ps :: "'s \<Rightarrow> wpc list"
  assumes "\<And>s w. Q s \<Longrightarrow> w < length (ps s) \<Longrightarrow>
      Q (foldl f s (evs w)) \<and> ps (foldl f s (evs w)) = (ps s)[w := Exited]"
    and "Q s"
  shows "all_exited (ps (foldl f s (concat (map evs [0..<length (ps s)]))))"
  by (rule sweep [where Q = Q]) (use assms in simp_all)

lemma drain_one:
  assumes "ctx_done s \<and> jobs_closed s" and "w < length (pcs s)"
  shows "(ctx_done (foldl (cstep tot) s (drain w)) \<and> jobs_closed (foldl (cstep tot) s (drain w))) \<and>
         pcs (foldl (cstep tot) s (drain w)) = (pcs s)[w := Exited]"
  using assms
  by (cases "pcs s ! w") (simp_all add: drain_def worker_at_def update_same)

lemma gen_stops:
  assumes "ctx_done s"
  shows "ctx_done (foldl (cstep tot) s [GenSelCtx, GenLoopEnd]) \<and>
         jobs_closed (foldl (cstep tot) s [GenSelCtx, GenLoopEnd]) \<and>
         pcs (foldl (cstep tot) s [GenSelCtx, GenLoopEnd]) = pcs s"
  using assms by simp

lemma quiet_init: "quiet (cinit tot c)"
  by (simp add: quiet_def cinit_def workers_idle)

lemma quiet_at: "set ps \<subseteq> {Idle, Exited} \<Longrightarrow> worker_at ps w p \<Longrightarrow> p = Idle \<or> p = Exited"
  by (auto simp: worker_at_def dest: nth_mem)

lemma quiet_step: "tot \<le> 0 \<Longrightarrow> quiet s \<Longrightarrow> rep s = r0 \<Longrightarrow>
  quiet (cstep tot s e) \<and> rep (cstep tot s e) = r0"
  by (cases e) (auto simp: quiet_def dest: quiet_at dest!: subsetD [OF set_update_subset_insert])

lemma quiet_run:
  assumes "tot \<le> 0"
  shows "quiet (crun tot c sched) \<and> rep (crun tot c sched) = new_report tot"
  unfolding crun_def
  by (rule foldl_invariant [where P = "\<lambda>s. quiet s \<and> rep s = new_report tot"])
     (use assms quiet_step quiet_init [of tot c] in \<open>simp_all add: cinit_def\<close>)

lemma close_one:
  assumes "jobs_closed s \<and> quiet s" and "w < length (pcs s)"
  shows "(jobs_closed (foldl (cstep tot) s [RangeEnd w]) \<and> quiet (foldl (cstep tot) s [RangeEnd w])) \<and>
         pcs (foldl (cstep tot) s [RangeEnd w]) = (pcs s)[w := Exited]"
proof -
  from assms have "pcs s ! w = Idle \<or> pcs s ! w = Exited"
    by (auto simp: quiet_def dest: nth_mem)
  then show ?thesis
    using assms
    by (auto simp: quiet_def worker_at_def update_same
        dest!: subsetD [OF set_update_subset_insert])
qed

lemma count_zero_completes:
  assumes "tot \<le> 0"
  shows "all_exited (pcs (crun tot c (close_down (length (workers c)))))"
proof -
  let ?s0 = "cinit tot c"
  let ?s1 = "cstep tot ?s0 GenLoopEnd"
  have q: "jobs_closed ?s1 \<and> quiet ?s1"
    using assms quiet_init [of tot c] by (simp add: quiet_def cinit_def)
  have len: "length (pcs ?s1) = length (workers c)"
    by (simp add: cinit_def)
  have "all_exited (pcs (foldl (cstep tot) ?s1
          (concat (map (\<lambda>w. [RangeEnd w]) [0..<length (pcs ?s1)]))))"
    by (rule sweep_all [where Q = "\<lambda>s. jobs_closed s \<and> quiet s"]) (use q close_one in blast)+
  then show ?thesis
    unfolding len by (simp add: crun_def close_down_def)
qed

lemma Seconds_exact: "Seconds (\<lambda>x. x) d = of_int d / 1000000000"
proof -
  have "d = (d sdiv Second) * Second + d smod Second"
    by (simp add: sdiv_mult_smod_eq)
  then have "real_of_int d = of_int (d sdiv Second) * 1000000000 + of_int (d smod Second)"
    by (metis Second_def of_int_add of_int_mult of_int_numeral)
  then show ?thesis
    by (simp add: Seconds_def Let_def field_simps)
qed

lemma cstep_ctx_sticky: "ctx_done s \<Longrightarrow> ctx_done (cstep tot s e)"
  by (cases e) simp_all

lemma cfold_ctx_sticky: "ctx_done s \<Longrightarrow> ctx_done (foldl (cstep tot) s es)"
  by (rule foldl_invariant) (simp_all add: cstep_ctx_sticky)

lemma crun_cancelled:
  assumes "Cancel \<in> set sched"
  shows "ctx_done (crun tot c sched)"
proof -
  from assms obtain xs ys where "sched = xs @ Cancel # ys"
    by (auto dest: split_list)
  then show ?thesis
    by (simp add: crun_def cfold_ctx_sticky)
qed

lemma count_completes_when_cancelled:
  assumes "ctx_done (crun tot c sched)"
  shows "RunWithOptions tot c (sched @ wind_down (length (workers c))) el \<noteq> None"
proof -
  let ?s1 = "crun tot c sched"
  let ?s2 = "foldl (cstep tot) ?s1 [GenSelCtx, GenLoopEnd]"
  have len: "length (pcs ?s2) = length (workers c)"
    by (simp add: crun_length)
  have c2: "ctx_done ?s2 \<and> jobs_closed ?s2"
    using gen_stops [OF assms] by simp
  have "all_exited (pcs (foldl (cstep tot) ?s2 (concat (map drain [0..<length (pcs ?s2)]))))"
    by (rule sweep_all [where Q = "\<lambda>s. ctx_done s \<and> jobs_closed s"]) (use c2 drain_one in blast)+
  then have "all_exited (pcs (crun tot c (sched @ wind_down (length (workers c)))))"
    unfolding len by (simp add: crun_def wind_down_def)
  then show ?thesis by (simp add: RunWithOptions_def Let_def)
qed

lemma workers_coerced: "c < 1 \<Longrightarrow> workers c = workers 1"
  by (simp add: workers_def)

lemma workers_one: "workers 1 = [Idle]"
  by (simp add: workers_def)

lemma body_failed:
  "body_count DoFailed r = r\<lparr>Errors := Errors r + 1\<rparr>"
  "body_timed DoFailed r = r\<lparr>Errors := Errors r + 1\<rparr>"
  "body_count NewRequestFailed r = r\<lparr>Errors := Errors r + 1\<rparr>"
  "body_timed NewRequestFailed r = r\<lparr>Errors := Errors r + 1\<rparr>"
  by (simp_all add: record_error_def)

lemma status_recorded:
  "Errors (record_status code r) = Errors r"
  "lookup0 (StatusCounts (record_status code r)) code = lookup0 (StatusCounts r) code + 1"
  by (simp_all add: record_status_def Let_def lookup0_incr)

lemma body_response:
  "Errors (body_count (Response code) r) = Errors r"
  "lookup0 (StatusCounts (body_count (Response code) r)) code = lookup0 (StatusCounts r) code + 1"
  "Errors (body_timed (Response code) r) = Errors r"
  "lookup0 (StatusCounts (body_timed (Response code) r)) code = lookup0 (StatusCounts r) code + 1"
  by (simp_all add: status_recorded)

lemma failed_attempt_step:
  assumes "worker_at (pcs s) w InRequest"
  shows "worker_at (pcs (cstep tot s (Attempt w DoFailed))) w Idle"
    and "calls (cstep tot s (Attempt w DoFailed)) = calls s + 1"
  using assms by (simp_all add: worker_at_def)

lemma failed_attempt_dstep:
  assumes "worker_at (pcs s) w InRequest"
  shows "worker_at (pcs (dstep s (Attempt w DoFailed))) w Idle"
    and "calls (dstep s (Attempt w DoFailed)) = calls s + 1"
  using assms by (simp_all add: worker_at_def)

lemma failed_attempt_rstep:
  assumes "worker_at (pcs s) w InRequest"
  shows "worker_at (pcs (rstep s (Attempt w DoFailed))) w Idle"
    and "calls (rstep s (Attempt w DoFailed)) = calls s + 1"
  using assms by (simp_all add: worker_at_def)

lemma count_calls_bound:
  "int (calls (crun tot c sched)) \<le> gen_i (crun tot c sched)"
  "gen_i (crun tot c sched) \<le> max 0 tot"
proof -
  have b: "0 \<le> busy ps" for ps
    unfolding busy_def by (induction ps) simp_all
  show "int (calls (crun tot c sched)) \<le> gen_i (crun tot c sched)"
    using cinv_run [of tot c sched] b [of "pcs (crun tot c sched)"] by (simp add: cinv_def)
  show "gen_i (crun tot c sched) \<le> max 0 tot"
    using cinv_run [of tot c sched] by (simp add: cinv_def)
qed

lemma gen_done_step:
  assumes "gen s = GDone"
  shows "gen (rstep s e) = GDone" and "jobs_len (rstep s e) \<le> jobs_len s"
  using assms by (cases e; simp)+

lemma gen_observes:
  "gen s \<noteq> GDone \<Longrightarrow> end_ch s = Fired \<Longrightarrow> gen (rstep s GenSelEnd) = GDone"
  "gen s \<noteq> GDone \<Longrightarrow> ctx_done s \<Longrightarrow> gen (rstep s GenSelCtx) = GDone"
  by simp_all

lemma jobs_bound: "jobs_len (rrun c sched) \<le> 1024"
  using rinv_run [of c sched] by (simp add: rinv_def jobs_cap_def)

lemma rate_early:
  "le_zero rps \<Longrightarrow> RunForDurationWithRate c rps sched el = Some (new_report 0, None)"
  by (simp add: RunForDurationWithRate_def)

lemma zero_total_result:
  assumes "RunWithOptions 0 c sched el = Some (r, err)"
  shows "r = (new_report 0)\<lparr>Duration := el\<rparr>" and "err = None"
  using assms quiet_run [of 0 c sched]
  by (auto simp: RunWithOptions_def Let_def split: if_splits)

lemma zero_total_returns:
  "RunWithOptions 0 c (close_down (length (workers c))) el = Some ((new_report 0)\<lparr>Duration := el\<rparr>, None)"
  using count_zero_completes [of 0 c] quiet_run [of 0 c "close_down (length (workers c))"]
  by (simp add: RunWithOptions_def Let_def)

lemma fill_jobs:
  "n \<le> jobs_cap \<Longrightarrow>
   jobs_len (foldl rstep (rinit c) (concat (replicate n [Tick, GenSelTick, GenSend]))) = n \<and>
   gen (foldl rstep (rinit c) (concat (replicate n [Tick, GenSelTick, GenSend]))) = GOuter"
proof (induction n)
  case 0
  then show ?case by (simp add: rinit_def)
next
  case (Suc n)
  have "replicate (Suc n) [Tick, GenSelTick, GenSend] =
        replicate n [Tick, GenSelTick, GenSend] @ [[Tick, GenSelTick, GenSend]]"
    by (simp add: replicate_append_same)
  then show ?case using Suc by simp
qed

lemma jobs_full:
  "jobs_len (rrun c (concat (replicate 1024 [Tick, GenSelTick, GenSend]))) = 1024"
  using fill_jobs [of 1024 c] by (simp add: rrun_def jobs_cap_def)

lemma never_an_error:
  "RunWithOptions tot c sched el \<noteq> Some (r, Some msg)"
  "RunForDuration c sched el \<noteq> Some (r, Some msg)"
  "RunForDurationWithRate c rps sched el \<noteq> Some (r, Some msg)"
  using count_result(1) [of tot c sched el r "Some msg"]
    duration_result(1) [of c sched el r "Some msg"]
    rate_result(1) [of c rps sched el r "Some msg"]
  by auto

lemma body_response_full:
  "body_count (Response code) r =
     r\<lparr>StatusCounts := incr (StatusCounts r) code,
       Succeeded200 := Succeeded200 r + (if code = 200 then 1 else 0)\<rparr>"
  "body_timed (Response code) r =
     r\<lparr>TotalRequests := TotalRequests r + 1,
       StatusCounts := incr (StatusCounts r) code,
       Succeeded200 := Succeeded200 r + (if code = 200 then 1 else 0)\<rparr>"
  by (simp_all add: record_status_def Let_def)

lemma attempt_rep:
  "worker_at (pcs cs) w InRequest \<Longrightarrow> rep (cstep tot cs (Attempt w a)) = body_count a (rep cs)"
  "worker_at (pcs ds) w InRequest \<Longrightarrow> rep (dstep ds (Attempt w a)) = body_timed a (rep ds)"
  "worker_at (pcs rs) w InRequest \<Longrightarrow> rep (rstep rs (Attempt w a)) = body_timed a (rep rs)"
  by simp_all

lemma attempt_rep_disabled:
  "\<not> worker_at (pcs cs) w InRequest \<Longrightarrow> rep (cstep tot cs (Attempt w a)) = rep cs"
  "\<not> worker_at (pcs ds) w InRequest \<Longrightarrow> rep (dstep ds (Attempt w a)) = rep ds"
  "\<not> worker_at (pcs rs) w InRequest \<Longrightarrow> rep (rstep rs (Attempt w a)) = rep rs"
  by simp_all

lemma other_event_rep:
  "\<not> is_attempt e \<Longrightarrow> rep (cstep tot cs e) = rep cs"
  "\<not> is_attempt e \<Longrightarrow> rep (dstep ds e) = rep ds"
  "\<not> is_attempt e \<Longrightarrow> rep (rstep rs e) = rep rs"
  by (cases e; simp)+

lemma calls_recorded:
  "int (calls (crun tot c sched)) \<le>
     sum_counts (StatusCounts (rep (crun tot c sched))) + Errors (rep (crun tot c sched))"
  "int (calls (drun c sched)) \<le>
     sum_counts (StatusCounts (rep (drun c sched))) + Errors (rep (drun c sched))"
  "int (calls (rrun c sched)) \<le>
     sum_counts (StatusCounts (rep (rrun c sched))) + Errors (rep (rrun c sched))"
  using cinv_run [of tot c sched] dinv_run [of c sched] rinv_run [of c sched]
  by (simp_all add: cinv_def rinv_def timed_inv_def tally_def)

lemma attempt_worker:
  "worker_at (pcs cs) w InRequest \<Longrightarrow>
     worker_at (pcs (cstep tot cs (Attempt w a))) w Idle \<and>
     calls (cstep tot cs (Attempt w a)) = calls cs + do_calls a"
  "worker_at (pcs ds) w InRequest \<Longrightarrow>
     worker_at (pcs (dstep ds (Attempt w a))) w Idle \<and>
     calls (dstep ds (Attempt w a)) = calls ds + do_calls a"
  "worker_at (pcs rs) w InRequest \<Longrightarrow>
     worker_at (pcs (rstep rs (Attempt w a))) w Idle \<and>
     calls (rstep rs (Attempt w a)) = calls rs + do_calls a"
  by (simp_all add: worker_at_def)

lemma attempt_effect_c:
  assumes "worker_at (pcs cs) w InRequest"
  shows "rep (cstep tot cs (Attempt w DoFailed)) = (rep cs)\<lparr>Errors := Errors (rep cs) + 1\<rparr> \<and>
      rep (cstep tot cs (Attempt w NewRequestFailed)) =
        (rep cs)\<lparr>Errors := Errors (rep cs) + 1\<rparr> \<and>
      rep (cstep tot cs (Attempt w (Response code))) =
        (rep cs)\<lparr>StatusCounts := incr (StatusCounts (rep cs)) code,
                 Succeeded200 := Succeeded200 (rep cs) + (if code = 200 then 1 else 0)\<rparr> \<and>
      worker_at (pcs (cstep tot cs (Attempt w a))) w Idle \<and>
      calls (cstep tot cs (Attempt w a)) = calls cs + do_calls a"
  using assms by (simp add: worker_at_def record_error_def record_status_def Let_def)

lemma attempt_effect_d:
  assumes "worker_at (pcs ds) w InRequest"
  shows "rep (dstep ds (Attempt w DoFailed)) = (rep ds)\<lparr>Errors := Errors (rep ds) + 1\<rparr> \<and>
      rep (dstep ds (Attempt w NewRequestFailed)) =
        (rep ds)\<lparr>Errors := Errors (rep ds) + 1\<rparr> \<and>
      rep (dstep ds (Attempt w (Response code))) =
        (rep ds)\<lparr>TotalRequests := TotalRequests (rep ds) + 1,
                 StatusCounts := incr (StatusCounts (rep ds)) code,
                 Succeeded200 := Succeeded200 (rep ds) + (if code = 200 then 1 else 0)\<rparr> \<and>
      worker_at (pcs (dstep ds (Attempt w a))) w Idle \<and>
      calls (dstep ds (Attempt w a)) = calls ds + do_calls a"
  using assms by (simp add: worker_at_def record_error_def record_status_def Let_def)

lemma attempt_effect_r:
  assumes "worker_at (pcs rs) w InRequest"
  shows "rep (rstep rs (Attempt w DoFailed)) = (rep rs)\<lparr>Errors := Errors (rep rs) + 1\<rparr> \<and>
      rep (rstep rs (Attempt w NewRequestFailed)) =
        (rep rs)\<lparr>Errors := Errors (rep rs) + 1\<rparr> \<and>
      rep (rstep rs (Attempt w (Response code))) =
        (rep rs)\<lparr>TotalRequests := TotalRequests (rep rs) + 1,
                 StatusCounts := incr (StatusCounts (rep rs)) code,
                 Succeeded200 := Succeeded200 (rep rs) + (if code = 200 then 1 else 0)\<rparr> \<and>
      worker_at (pcs (rstep rs (Attempt w a))) w Idle \<and>
      calls (rstep rs (Attempt w a)) = calls rs + do_calls a"
  using assms by (simp add: worker_at_def record_error_def record_status_def Let_def)

section \<open>Sample runs\<close>

lemma sample_count_run:
  "RunWithOptions 1 1
     [GenSendTo 0, CtxCheck 0, Attempt 0 (Response 200), GenLoopEnd, RangeEnd 0] 5 =
   Some ((new_report 1)\<lparr>Duration := 5, Succeeded200 := 1, StatusCounts := [200 \<mapsto> 1]\<rparr>,
         None)"
  by (simp add: RunWithOptions_def crun_def cinit_def workers_def worker_at_def all_exited_def
      new_report_def record_status_def incr_def lookup0_def)

lemma sample_cancelled_run:
  "RunWithOptions 3 1
     [GenSendTo 0, CtxCheck 0, Attempt 0 (Response 200), Cancel, GenSelCtx, RangeEnd 0] 7 =
   Some ((new_report 3)\<lparr>Duration := 7, Succeeded200 := 1, StatusCounts := [200 \<mapsto> 1]\<rparr>,
         None)"
  by (simp add: RunWithOptions_def crun_def cinit_def workers_def worker_at_def all_exited_def
      new_report_def record_status_def incr_def lookup0_def)

lemma sample_duration_run:
  "RunForDuration 1 [SelDefault 0, Attempt 0 (Response 200), Deadline, SelEnd 0] 5 =
   Some ((new_report 0)\<lparr>Duration := 5, TotalRequests := 1, Succeeded200 := 1,
                          StatusCounts := [200 \<mapsto> 1]\<rparr>, None)"
  by (simp add: RunForDuration_def drun_def dinit_def workers_def worker_at_def all_exited_def
      new_report_def record_status_def incr_def lookup0_def)

lemma sample_rate_run:
  "RunForDurationWithRate 1 (Finite 10)
     [Tick, GenSelTick, GenSend, Recv 0, CtxCheck 0, Attempt 0 (Response 404),
      Deadline, GenSelEnd, RangeEnd 0] 5 =
   Some ((new_report 0)\<lparr>Duration := 5, TotalRequests := 1, StatusCounts := [404 \<mapsto> 1]\<rparr>,
         None)"
  by (simp add: RunForDurationWithRate_def rrun_def rinit_def workers_def worker_at_def
      all_exited_def new_report_def record_status_def incr_def lookup0_def jobs_cap_def)

lemma sum_counts_single: "sum_counts [k \<mapsto> v] = v"
  by (simp add: sum_counts_def lookup0_def)

section \<open>The claims\<close>

text \<open>
  C1 (as stated): in every mode the returned report satisfies
  \<open>TotalRequests = \<Sum>StatusCounts + Errors\<close>. It fails: a duration-bounded run whose
  single attempt fails in \<open>client.Do\<close> returns \<open>TotalRequests = 0\<close> and \<open>Errors = 1\<close>.
\<close>

theorem C1_counterexample:
  "RunForDuration 1 [SelDefault 0, Attempt 0 DoFailed, Cancel, SelCtx 0] 7 =
     Some ((new_report 0)\<lparr>Duration := 7, Errors := 1\<rparr>, None) \<and>
   TotalRequests ((new_report 0)\<lparr>Duration := 7, Errors := 1\<rparr>) \<noteq>
     sum_counts (StatusCounts ((new_report 0)\<lparr>Duration := 7, Errors := 1\<rparr>)) +
     Errors ((new_report 0)\<lparr>Duration := 7, Errors := 1\<rparr>)"
  by (simp add: RunForDuration_def drun_def dinit_def workers_def worker_at_def all_exited_def
      new_report_def record_error_def sum_counts_def)

text \<open>
  C1 (amended): a count-bounded run returns \<open>TotalRequests\<close> equal to the configured total;
  \<open>\<Sum>StatusCounts + Errors\<close> never exceeds that total (taken as 0 when it is negative) and
  equals it when the context is never cancelled and the total is not negative. In the two
  duration modes the equation holds exactly when \<open>Errors = 0\<close>.
\<close>

theorem C1_accounting:
  "(RunWithOptions tot c sched el = Some (r, err) \<longrightarrow>
      TotalRequests r = tot \<and>
      sum_counts (StatusCounts r) + Errors r \<le> max 0 tot \<and>
      (Cancel \<notin> set sched \<and> 0 \<le> tot \<longrightarrow>
         TotalRequests r = sum_counts (StatusCounts r) + Errors r)) \<and>
   (RunForDuration c' sched' el' = Some (r', err') \<longrightarrow>
      (TotalRequests r' = sum_counts (StatusCounts r') + Errors r' \<longleftrightarrow> Errors r' = 0)) \<and>
   (RunForDurationWithRate c'' rps sched'' el'' = Some (r'', err'') \<longrightarrow>
      (TotalRequests r'' = sum_counts (StatusCounts r'') + Errors r'' \<longleftrightarrow> Errors r'' = 0))"
proof (intro conjI impI)
  assume a: "RunWithOptions tot c sched el = Some (r, err)"
  show "TotalRequests r = tot" by (rule count_result(2) [OF a])
  show "sum_counts (StatusCounts r) + Errors r \<le> max 0 tot"
    using count_result(4) [OF a] by (simp add: tally_def)
  show "TotalRequests r = sum_counts (StatusCounts r) + Errors r"
    if "Cancel \<notin> set sched \<and> 0 \<le> tot"
    using that count_result(2,6) [OF a] by (simp add: tally_def)
next
  assume "RunForDuration c' sched' el' = Some (r', err')"
  from duration_result(3) [OF this]
  show "(TotalRequests r' = sum_counts (StatusCounts r') + Errors r') = (Errors r' = 0)"
    by simp
next
  assume "RunForDurationWithRate c'' rps sched'' el'' = Some (r'', err'')"
  from rate_result(3) [OF this]
  show "(TotalRequests r'' = sum_counts (StatusCounts r'') + Errors r'') = (Errors r'' = 0)"
    by simp
qed

theorem C1_accounting_witness:
  "RunWithOptions 1 1
     [GenSendTo 0, CtxCheck 0, Attempt 0 (Response 200), GenLoopEnd, RangeEnd 0] 5 =
     Some ((new_report 1)\<lparr>Duration := 5, Succeeded200 := 1, StatusCounts := [200 \<mapsto> 1]\<rparr>,
           None) \<and>
   Cancel \<notin> set [GenSendTo 0, CtxCheck 0, Attempt 0 (Response 200), GenLoopEnd, RangeEnd 0] \<and>
   (1::int) = sum_counts [200 \<mapsto> 1] + 0 \<and>
   RunForDuration 1 [SelDefault 0, Attempt 0 (Response 200), Deadline, SelEnd 0] 5 =
     Some ((new_report 0)\<lparr>Duration := 5, TotalRequests := 1, Succeeded200 := 1,
                            StatusCounts := [200 \<mapsto> 1]\<rparr>, None) \<and>
   RunForDurationWithRate 1 (Finite 10)
     [Tick, GenSelTick, GenSend, Recv 0, CtxCheck 0, Attempt 0 (Response 404),
      Deadline, GenSelEnd, RangeEnd 0] 5 =
     Some ((new_report 0)\<lparr>Duration := 5, TotalRequests := 1, StatusCounts := [404 \<mapsto> 1]\<rparr>,
           None) \<and>
   (1::int) = sum_counts [404 \<mapsto> 1] + 0"
  using C1_accounting [of 1 1
      "[GenSendTo 0, CtxCheck 0, Attempt 0 (Response 200), GenLoopEnd, RangeEnd 0]" 5
      "(new_report 1)\<lparr>Duration := 5, Succeeded200 := 1, StatusCounts := [200 \<mapsto> 1]\<rparr>" None
      1 "[SelDefault 0, Attempt 0 (Response 200), Deadline, SelEnd 0]" 5
      "(new_report 0)\<lparr>Duration := 5, TotalRequests := 1, Succeeded200 := 1,
                         StatusCounts := [200 \<mapsto> 1]\<rparr>" None
      1 "Finite 10"
      "[Tick, GenSelTick, GenSend, Recv 0, CtxCheck 0, Attempt 0 (Response 404),
        Deadline, GenSelEnd, RangeEnd 0]" 5
      "(new_report 0)\<lparr>Duration := 5, TotalRequests := 1, StatusCounts := [404 \<mapsto> 1]\<rparr>" None]
    sample_count_run sample_duration_run sample_rate_run
  by (simp add: new_report_def)

text \<open>
  C2 (as stated): a count-bounded run whose context is cancelled mid-run returns
  \<open>TotalRequests\<close> strictly below the configured total, with the accounting equation
  intact. It fails: with a total of 3, one exchange done and then a cancellation, the run
  returns \<open>TotalRequests = 3\<close> while one outcome was recorded.
\<close>

theorem C2_counterexample:
  "Cancel \<in> set [GenSendTo 0, CtxCheck 0, Attempt 0 (Response 200), Cancel, GenSelCtx,
                  RangeEnd 0] \<and>
   RunWithOptions 3 1
     [GenSendTo 0, CtxCheck 0, Attempt 0 (Response 200), Cancel, GenSelCtx, RangeEnd 0] 7 =
     Some ((new_report 3)\<lparr>Duration := 7, Succeeded200 := 1, StatusCounts := [200 \<mapsto> 1]\<rparr>,
           None) \<and>
   \<not> TotalRequests ((new_report 3)\<lparr>Duration := 7, Succeeded200 := 1,
                                   StatusCounts := [200 \<mapsto> 1]\<rparr>) < 3 \<and>
   TotalRequests ((new_report 3)\<lparr>Duration := 7, Succeeded200 := 1,
                                 StatusCounts := [200 \<mapsto> 1]\<rparr>) \<noteq>
     sum_counts (StatusCounts ((new_report 3)\<lparr>Duration := 7, Succeeded200 := 1,
                                                StatusCounts := [200 \<mapsto> 1]\<rparr>)) +
     Errors ((new_report 3)\<lparr>Duration := 7, Succeeded200 := 1,
                              StatusCounts := [200 \<mapsto> 1]\<rparr>)"
  using sample_cancelled_run by (simp add: new_report_def sum_counts_single)

text \<open>
  C2 (amended): when the context is cancelled during a count-bounded run, the run can
  always come to its end (after \<open>wind_down\<close> every worker has returned), and whenever it
  returns, it returns no error, \<open>TotalRequests\<close> equal to the configured total, and
  \<open>\<Sum>StatusCounts + Errors\<close> at most that total (0 for a negative total).
\<close>

theorem C2_cancelled_count_run:
  assumes "Cancel \<in> set sched"
  shows "RunWithOptions tot c (sched @ wind_down (length (workers c))) el \<noteq> None \<and>
         (RunWithOptions tot c sched el = Some (r, err) \<longrightarrow>
            err = None \<and> TotalRequests r = tot \<and>
            sum_counts (StatusCounts r) + Errors r \<le> max 0 tot)"
proof (intro conjI impI)
  show "RunWithOptions tot c (sched @ wind_down (length (workers c))) el \<noteq> None"
    using assms by (intro count_completes_when_cancelled crun_cancelled)
next
  assume a: "RunWithOptions tot c sched el = Some (r, err)"
  show "err = None" by (rule count_result(1) [OF a])
  show "TotalRequests r = tot" by (rule count_result(2) [OF a])
  show "sum_counts (StatusCounts r) + Errors r \<le> max 0 tot"
    using count_result(4) [OF a] by (simp add: tally_def)
qed

theorem C2_cancelled_count_run_witness:
  "Cancel \<in> set [GenSendTo 0, CtxCheck 0, Attempt 0 (Response 200), Cancel, GenSelCtx,
                  RangeEnd 0] \<and>
   RunWithOptions 3 1
     [GenSendTo 0, CtxCheck 0, Attempt 0 (Response 200), Cancel, GenSelCtx, RangeEnd 0] 7 =
     Some ((new_report 3)\<lparr>Duration := 7, Succeeded200 := 1, StatusCounts := [200 \<mapsto> 1]\<rparr>,
           None) \<and>
   RunWithOptions 3 1
     ([GenSendTo 0, CtxCheck 0, Attempt 0 (Response 200), Cancel, GenSelCtx, RangeEnd 0] @
      wind_down (length (workers 1))) 7 \<noteq> None \<and>
   sum_counts [200 \<mapsto> 1] + 0 \<le> max 0 (3::int)"
proof -
  have c: "Cancel \<in> set [GenSendTo 0, CtxCheck 0, Attempt 0 (Response 200), Cancel, GenSelCtx,
                          RangeEnd 0]"
    by simp
  show ?thesis
    using c sample_cancelled_run
      C2_cancelled_count_run [OF c, of 3 1 7
        "(new_report 3)\<lparr>Duration := 7, Succeeded200 := 1, StatusCounts := [200 \<mapsto> 1]\<rparr>" None]
    by (simp add: new_report_def)
qed

text \<open>
  C3: \<open>RPS\<close> is 0 when \<open>Duration \<le> 0\<close>; otherwise it is the \<open>float64\<close> quotient of
  \<open>TotalRequests\<close> and \<open>Duration.Seconds()\<close>, which in exact arithmetic is
  \<open>TotalRequests\<close> divided by the duration in seconds.
\<close>

theorem C3_RPS:
  "(Duration r \<le> 0 \<longrightarrow> RPS rnd r = 0) \<and>
   (0 < Duration r \<longrightarrow>
      RPS rnd r = rnd (rnd (of_int (TotalRequests r)) / Seconds rnd (Duration r)) \<and>
      RPS (\<lambda>x. x) r = of_int (TotalRequests r) / (of_int (Duration r) / 1000000000))"
  by (simp add: RPS_def Seconds_exact)

theorem C3_RPS_witness:
  "Duration (new_report 10) \<le> 0 \<and> RPS (\<lambda>x. x) (new_report 10) = 0 \<and>
   0 < Duration ((new_report 10)\<lparr>Duration := 2000000000\<rparr>) \<and>
   RPS (\<lambda>x. x) ((new_report 10)\<lparr>Duration := 2000000000\<rparr>) = 5"
  using C3_RPS [of "new_report 10" "\<lambda>x. x"]
    C3_RPS [of "(new_report 10)\<lparr>Duration := 2000000000\<rparr>" "\<lambda>x. x"]
  by (simp add: new_report_def)

text \<open>
  C4: with \<open>rps \<le> 0\<close>, \<open>RunForDurationWithRate\<close> returns at once, whatever the other
  arguments and whatever the environment does: the zero report (all counters 0, empty
  histogram), no error, and no \<open>client.Do\<close> call.
\<close>

theorem C4_nonpositive_rate:
  assumes "le_zero rps"
  shows "RunForDurationWithRate concurrency rps sched elapsed =
           Some (\<lparr>Duration = 0, TotalRequests = 0, Succeeded200 = 0,
                  StatusCounts = Map.empty, Errors = 0\<rparr>, None) \<and>
         rate_calls concurrency rps sched = 0"
  using assms by (simp add: rate_early rate_calls_def) (simp add: new_report_def)

theorem C4_nonpositive_rate_witness:
  "le_zero (Finite (- 5)) \<and>
   RunForDurationWithRate 4 (Finite (- 5)) [Tick, GenSelTick, GenSend, Recv 0] 9 =
     Some (\<lparr>Duration = 0, TotalRequests = 0, Succeeded200 = 0,
            StatusCounts = Map.empty, Errors = 0\<rparr>, None) \<and>
   rate_calls 4 (Finite (- 5)) [Tick, GenSelTick, GenSend, Recv 0] = 0"
proof -
  have h: "le_zero (Finite (- 5))" by simp
  show ?thesis
    using h C4_nonpositive_rate [OF h, of 4 "[Tick, GenSelTick, GenSend, Recv 0]" 9]
    by simp
qed

text \<open>
  C5: in every mode the step that ends a request attempt is the only one that changes the
  report, and it applies the loop body to it: a failed \<open>client.Do\<close> (or a failed
  \<open>http.NewRequestWithContext\<close>) adds one to \<open>Errors\<close> and changes nothing else; a
  completed exchange, whatever its status code, adds one to that code's histogram entry
  (and to \<open>Succeeded200\<close> for 200, and to \<open>TotalRequests\<close> in the duration modes), leaves
  every other entry and \<open>Errors\<close> alone. After the attempt the worker is back at the head of
  its loop with exactly the attempt's one call made, so a failed request is not repeated;
  over a whole run every call made has been recorded, and in a count-bounded run the calls
  never exceed the jobs handed out, which never exceed the total. The error returned by
  each entry operation is always \<open>nil\<close>.
\<close>

theorem C5_attempt_outcomes:
  "(worker_at (pcs cs) w InRequest \<longrightarrow>
      rep (cstep tot cs (Attempt w DoFailed)) = (rep cs)\<lparr>Errors := Errors (rep cs) + 1\<rparr> \<and>
      rep (cstep tot cs (Attempt w NewRequestFailed)) =
        (rep cs)\<lparr>Errors := Errors (rep cs) + 1\<rparr> \<and>
      rep (cstep tot cs (Attempt w (Response code))) =
        (rep cs)\<lparr>StatusCounts := incr (StatusCounts (rep cs)) code,
                 Succeeded200 := Succeeded200 (rep cs) + (if code = 200 then 1 else 0)\<rparr> \<and>
      worker_at (pcs (cstep tot cs (Attempt w a))) w Idle \<and>
      calls (cstep tot cs (Attempt w a)) = calls cs + do_calls a) \<and>
   (worker_at (pcs ds) w InRequest \<longrightarrow>
      rep (dstep ds (Attempt w DoFailed)) = (rep ds)\<lparr>Errors := Errors (rep ds) + 1\<rparr> \<and>
      rep (dstep ds (Attempt w NewRequestFailed)) =
        (rep ds)\<lparr>Errors := Errors (rep ds) + 1\<rparr> \<and>
      rep (dstep ds (Attempt w (Response code))) =
        (rep ds)\<lparr>TotalRequests := TotalRequests (rep ds) + 1,
                 StatusCounts := incr (StatusCounts (rep ds)) code,
                 Succeeded200 := Succeeded200 (rep ds) + (if code = 200 then 1 else 0)\<rparr> \<and>
      worker_at (pcs (dstep ds (Attempt w a))) w Idle \<and>
      calls (dstep ds (Attempt w a)) = calls ds + do_calls a) \<and>
   (worker_at (pcs rs) w InRequest \<longrightarrow>
      rep (rstep rs (Attempt w DoFailed)) = (rep rs)\<lparr>Errors := Errors (rep rs) + 1\<rparr> \<and>
      rep (rstep rs (Attempt w NewRequestFailed)) =
        (rep rs)\<lparr>Errors := Errors (rep rs) + 1\<rparr> \<and>
      rep (rstep rs (Attempt w (Response code))) =
        (rep rs)\<lparr>TotalRequests := TotalRequests (rep rs) + 1,
                 StatusCounts := incr (StatusCounts (rep rs)) code,
                 Succeeded200 := Succeeded200 (rep rs) + (if code = 200 then 1 else 0)\<rparr> \<and>
      worker_at (pcs (rstep rs (Attempt w a))) w Idle \<and>
      calls (rstep rs (Attempt w a)) = calls rs + do_calls a) \<and>
   (\<not> worker_at (pcs cs') w' InRequest \<longrightarrow> rep (cstep tot cs' (Attempt w' a)) = rep cs') \<and>
   (\<not> worker_at (pcs ds') w' InRequest \<longrightarrow> rep (dstep ds' (Attempt w' a)) = rep ds') \<and>
   (\<not> worker_at (pcs rs') w' InRequest \<longrightarrow> rep (rstep rs' (Attempt w' a)) = rep rs') \<and>
   (\<not> is_attempt e \<longrightarrow>
      rep (cstep tot cs e) = rep cs \<and> rep (dstep ds e) = rep ds \<and> rep (rstep rs e) = rep rs) \<and>
   lookup0 (incr m code) k = (if k = code then lookup0 m code + 1 else lookup0 m k) \<and>
   do_calls DoFailed = 1 \<and> do_calls (Response code) = 1 \<and> do_calls NewRequestFailed = 0 \<and>
   int (calls (crun tot c sched)) \<le>
     sum_counts (StatusCounts (rep (crun tot c sched))) + Errors (rep (crun tot c sched)) \<and>
   int (calls (drun c sched)) \<le>
     sum_counts (StatusCounts (rep (drun c sched))) + Errors (rep (drun c sched)) \<and>
   int (calls (rrun c sched)) \<le>
     sum_counts (StatusCounts (rep (rrun c sched))) + Errors (rep (rrun c sched)) \<and>
   int (calls (crun tot c sched)) \<le> gen_i (crun tot c sched) \<and>
   gen_i (crun tot c sched) \<le> max 0 tot \<and>
   body_count DoFailed r = r\<lparr>Errors := Errors r + 1\<rparr> \<and>
   body_timed DoFailed r = r\<lparr>Errors := Errors r + 1\<rparr> \<and>
   Errors (body_count (Response code) r) = Errors r \<and>
   lookup0 (StatusCounts (body_count (Response code) r)) code =
     lookup0 (StatusCounts r) code + 1 \<and>
   Errors (body_timed (Response code) r) = Errors r \<and>
   lookup0 (StatusCounts (body_timed (Response code) r)) code =
     lookup0 (StatusCounts r) code + 1 \<and>
   RunWithOptions tot c sched el \<noteq> Some (r1, Some msg) \<and>
   RunForDuration c sched el \<noteq> Some (r2, Some msg) \<and>
   RunForDurationWithRate c rps sched el \<noteq> Some (r3, Some msg)"
proof -
  have c: "worker_at (pcs cs) w InRequest \<longrightarrow>
      rep (cstep tot cs (Attempt w DoFailed)) = (rep cs)\<lparr>Errors := Errors (rep cs) + 1\<rparr> \<and>
      rep (cstep tot cs (Attempt w NewRequestFailed)) =
        (rep cs)\<lparr>Errors := Errors (rep cs) + 1\<rparr> \<and>
      rep (cstep tot cs (Attempt w (Response code))) =
        (rep cs)\<lparr>StatusCounts := incr (StatusCounts (rep cs)) code,
                 Succeeded200 := Succeeded200 (rep cs) + (if code = 200 then 1 else 0)\<rparr> \<and>
      worker_at (pcs (cstep tot cs (Attempt w a))) w Idle \<and>
      calls (cstep tot cs (Attempt w a)) = calls cs + do_calls a"
    using attempt_effect_c [of cs w] by blast
  have d: "worker_at (pcs ds) w InRequest \<longrightarrow>
      rep (dstep ds (Attempt w DoFailed)) = (rep ds)\<lparr>Errors := Errors (rep ds) + 1\<rparr> \<and>
      rep (dstep ds (Attempt w NewRequestFailed)) =
        (rep ds)\<lparr>Errors := Errors (rep ds) + 1\<rparr> \<and>
      rep (dstep ds (Attempt w (Response code))) =
        (rep ds)\<lparr>TotalRequests := TotalRequests (rep ds) + 1,
                 StatusCounts := incr (StatusCounts (rep ds)) code,
                 Succeeded200 := Succeeded200 (rep ds) + (if code = 200 then 1 else 0)\<rparr> \<and>
      worker_at (pcs (dstep ds (Attempt w a))) w Idle \<and>
      calls (dstep ds (Attempt w a)) = calls ds + do_calls a"
    using attempt_effect_d [of ds w] by blast
  have r: "worker_at (pcs rs) w InRequest \<longrightarrow>
      rep (rstep rs (Attempt w DoFailed)) = (rep rs)\<lparr>Errors := Errors (rep rs) + 1\<rparr> \<and>
      rep (rstep rs (Attempt w NewRequestFailed)) =
        (rep rs)\<lparr>Errors := Errors (rep rs) + 1\<rparr> \<and>
      rep (rstep rs (Attempt w (Response code))) =
        (rep rs)\<lparr>TotalRequests := TotalRequests (rep rs) + 1,
                 StatusCounts := incr (StatusCounts (rep rs)) code,
                 Succeeded200 := Succeeded200 (rep rs) + (if code = 200 then 1 else 0)\<rparr> \<and>
      worker_at (pcs (rstep rs (Attempt w a))) w Idle \<and>
      calls (rstep rs (Attempt w a)) = calls rs + do_calls a"
    using attempt_effect_r [of rs w] by blast
  have o: "\<not> is_attempt e \<longrightarrow>
      rep (cstep tot cs e) = rep cs \<and> rep (dstep ds e) = rep ds \<and> rep (rstep rs e) = rep rs"
    using other_event_rep [of e] by blast
  have x: "(\<not> worker_at (pcs cs') w' InRequest \<longrightarrow> rep (cstep tot cs' (Attempt w' a)) = rep cs') \<and>
   (\<not> worker_at (pcs ds') w' InRequest \<longrightarrow> rep (dstep ds' (Attempt w' a)) = rep ds') \<and>
   (\<not> worker_at (pcs rs') w' InRequest \<longrightarrow> rep (rstep rs' (Attempt w' a)) = rep rs')"
    using attempt_rep_disabled by blast
  have dc: "do_calls DoFailed = 1 \<and> do_calls (Response code) = 1 \<and> do_calls NewRequestFailed = 0"
    by simp
  have b: "body_count DoFailed r = r\<lparr>Errors := Errors r + 1\<rparr> \<and>
   body_timed DoFailed r = r\<lparr>Errors := Errors r + 1\<rparr> \<and>
   Errors (body_count (Response code) r) = Errors r \<and>
   lookup0 (StatusCounts (body_count (Response code) r)) code =
     lookup0 (StatusCounts r) code + 1 \<and>
   Errors (body_timed (Response code) r) = Errors r \<and>
   lookup0 (StatusCounts (body_timed (Response code) r)) code =
     lookup0 (StatusCounts r) code + 1"
    by (simp only: body_failed body_response simp_thms)
  have n: "RunWithOptions tot c sched el \<noteq> Some (r1, Some msg) \<and>
   RunForDuration c sched el \<noteq> Some (r2, Some msg) \<and>
   RunForDurationWithRate c rps sched el \<noteq> Some (r3, Some msg)"
    by (simp only: never_an_error simp_thms not_False_eq_True)
  show ?thesis
    using c d r o x dc b n lookup0_incr [of m code k] calls_recorded(1) [of tot c sched]
      calls_recorded(2,3) [of c sched]
      count_calls_bound [of tot c sched]
    by blast
qed

theorem C5_attempt_outcomes_witness:
  "worker_at (pcs (crun 1 1 [GenSendTo 0, CtxCheck 0])) 0 InRequest \<and>
   rep (cstep 1 (crun 1 1 [GenSendTo 0, CtxCheck 0]) (Attempt 0 DoFailed)) =
     (new_report 1)\<lparr>Errors := 1\<rparr> \<and>
   rep (cstep 1 (crun 1 1 [GenSendTo 0, CtxCheck 0]) (Attempt 0 (Response 404))) =
     (new_report 1)\<lparr>StatusCounts := incr Map.empty 404\<rparr> \<and>
   worker_at (pcs (cstep 1 (crun 1 1 [GenSendTo 0, CtxCheck 0]) (Attempt 0 DoFailed))) 0 Idle \<and>
   calls (cstep 1 (crun 1 1 [GenSendTo 0, CtxCheck 0]) (Attempt 0 DoFailed)) = 1 \<and>
   worker_at (pcs (drun 1 [SelDefault 0])) 0 InRequest \<and>
   rep (dstep (drun 1 [SelDefault 0]) (Attempt 0 DoFailed)) = (new_report 0)\<lparr>Errors := 1\<rparr> \<and>
   rep (dstep (drun 1 [SelDefault 0]) (Attempt 0 (Response 404))) =
     (new_report 0)\<lparr>TotalRequests := 1, StatusCounts := incr Map.empty 404\<rparr> \<and>
   worker_at (pcs (rrun 1 [Tick, GenSelTick, GenSend, Recv 0, CtxCheck 0])) 0 InRequest \<and>
   rep (rstep (rrun 1 [Tick, GenSelTick, GenSend, Recv 0, CtxCheck 0]) (Attempt 0 DoFailed)) =
     (new_report 0)\<lparr>Errors := 1\<rparr> \<and>
   rep (rstep (rrun 1 [Tick, GenSelTick, GenSend, Recv 0, CtxCheck 0])
          (Attempt 0 (Response 404))) =
     (new_report 0)\<lparr>TotalRequests := 1, StatusCounts := incr Map.empty 404\<rparr> \<and>
   \<not> worker_at (pcs (cinit 1 1)) 0 InRequest \<and>
   rep (cstep 1 (cinit 1 1) (Attempt 0 DoFailed)) = rep (cinit 1 1) \<and>
   \<not> worker_at (pcs (dinit 1)) 0 InRequest \<and>
   rep (dstep (dinit 1) (Attempt 0 DoFailed)) = rep (dinit 1) \<and>
   \<not> worker_at (pcs (rinit 1)) 0 InRequest \<and>
   rep (rstep (rinit 1) (Attempt 0 DoFailed)) = rep (rinit 1) \<and>
   \<not> is_attempt Cancel \<and>
   rep (cstep 1 (crun 1 1 [GenSendTo 0, CtxCheck 0]) Cancel) =
     rep (crun 1 1 [GenSendTo 0, CtxCheck 0])"
proof -
  have a: "worker_at (pcs (crun 1 1 [GenSendTo 0, CtxCheck 0])) 0 InRequest"
    "rep (crun 1 1 [GenSendTo 0, CtxCheck 0]) = new_report 1"
    "calls (crun 1 1 [GenSendTo 0, CtxCheck 0]) = 0"
    by (simp_all add: crun_def cinit_def workers_def worker_at_def)
  have b: "worker_at (pcs (drun 1 [SelDefault 0])) 0 InRequest"
    "rep (drun 1 [SelDefault 0]) = new_report 0"
    by (simp_all add: drun_def dinit_def workers_def worker_at_def)
  have c: "worker_at (pcs (rrun 1 [Tick, GenSelTick, GenSend, Recv 0, CtxCheck 0])) 0 InRequest"
    "rep (rrun 1 [Tick, GenSelTick, GenSend, Recv 0, CtxCheck 0]) = new_report 0"
    by (simp_all add: rrun_def rinit_def workers_def worker_at_def jobs_cap_def)
  have d: "\<not> worker_at (pcs (cinit 1 1)) 0 InRequest"
    "\<not> worker_at (pcs (dinit 1)) 0 InRequest"
    "\<not> worker_at (pcs (rinit 1)) 0 InRequest"
    by (simp_all add: cinit_def dinit_def rinit_def workers_def worker_at_def)
  have e: "\<not> is_attempt Cancel" by simp
  have n: "StatusCounts (new_report t) = Map.empty" "Succeeded200 (new_report t) = 0"
    "Errors (new_report t) = 0" "TotalRequests (new_report t) = t"
    "(new_report t)\<lparr>Succeeded200 := 0\<rparr> = new_report t"
    for t
    by (simp_all add: new_report_def)
  show ?thesis
    using a(1) b(1) c(1) d e
      C5_attempt_outcomes [where cs = "crun 1 1 [GenSendTo 0, CtxCheck 0]" and w = 0
        and tot = 1 and ds = "drun 1 [SelDefault 0]"
        and rs = "rrun 1 [Tick, GenSelTick, GenSend, Recv 0, CtxCheck 0]"
        and cs' = "cinit 1 1" and ds' = "dinit 1" and rs' = "rinit 1" and w' = 0
        and e = Cancel and a = DoFailed and code = 404]
    by (simp add: a(2,3) b(2) c(2) n
        del: cstep.simps dstep.simps rstep.simps)
qed

text \<open>
  C6: a count-bounded run with a total of 0 never hands out a job: under every schedule
  no \<open>client.Do\<close> call is made and the report stays as it was created; whenever the run
  returns, it returns \<open>TotalRequests = 0\<close>, an empty histogram, no errors and no error
  value; and it does return as soon as the generator has closed the channel and each worker
  has seen that (\<open>close_down\<close>).
\<close>

theorem C6_zero_total:
  "calls (crun 0 c sched) = 0 \<and>
   rep (crun 0 c sched) = new_report 0 \<and>
   (RunWithOptions 0 c sched el = Some (r, err) \<longrightarrow>
      r = \<lparr>Duration = el, TotalRequests = 0, Succeeded200 = 0,
           StatusCounts = Map.empty, Errors = 0\<rparr> \<and> err = None) \<and>
   RunWithOptions 0 c (close_down (length (workers c))) el =
     Some (\<lparr>Duration = el, TotalRequests = 0, Succeeded200 = 0,
            StatusCounts = Map.empty, Errors = 0\<rparr>, None)"
proof -
  have n: "(new_report 0)\<lparr>Duration := el\<rparr> =
           \<lparr>Duration = el, TotalRequests = 0, Succeeded200 = 0,
            StatusCounts = Map.empty, Errors = 0\<rparr>"
    by (simp add: new_report_def)
  have "calls (crun 0 c sched) = 0" and "rep (crun 0 c sched) = new_report 0"
    using quiet_run [of 0 c sched] by (simp_all add: quiet_def)
  moreover have "RunWithOptions 0 c sched el = Some (r, err) \<longrightarrow>
      r = (new_report 0)\<lparr>Duration := el\<rparr> \<and> err = None"
    using zero_total_result [of c sched el r err] by blast
  ultimately show ?thesis
    using zero_total_returns [of c el] by (simp only: n simp_thms)
qed

theorem C6_zero_total_witness:
  "RunWithOptions 0 2 [GenLoopEnd, RangeEnd 0, RangeEnd 1] 8 =
     Some (\<lparr>Duration = 8, TotalRequests = 0, Succeeded200 = 0,
            StatusCounts = Map.empty, Errors = 0\<rparr>, None) \<and>
   calls (crun 0 2 [GenLoopEnd, RangeEnd 0, RangeEnd 1]) = 0 \<and>
   close_down (length (workers 2)) = [GenLoopEnd, RangeEnd 0, RangeEnd 1]"
proof -
  have s: "close_down (length (workers 2)) = [GenLoopEnd, RangeEnd 0, RangeEnd 1]"
    by (simp add: close_down_def workers_def upt_rec)
  show ?thesis
    using C6_zero_total [of 2 "[GenLoopEnd, RangeEnd 0, RangeEnd 1]" 8
        "\<lparr>Duration = 8, TotalRequests = 0, Succeeded200 = 0,
          StatusCounts = Map.empty, Errors = 0\<rparr>" None]
    by (simp only: s simp_thms)
qed

text \<open>
  C7: with \<open>concurrency < 1\<close> each entry operation runs exactly as with a concurrency of
  1, that is with one worker, and returns no error.
\<close>

theorem C7_concurrency_coerced:
  assumes "concurrency < 1"
  shows "workers concurrency = [Idle] \<and>
         RunWithOptions tot concurrency sched el = RunWithOptions tot 1 sched el \<and>
         RunForDuration concurrency sched el = RunForDuration 1 sched el \<and>
         RunForDurationWithRate concurrency rps sched el =
           RunForDurationWithRate 1 rps sched el \<and>
         RunWithOptions tot concurrency sched el \<noteq> Some (r1, Some msg) \<and>
         RunForDuration concurrency sched el \<noteq> Some (r2, Some msg) \<and>
         RunForDurationWithRate concurrency rps sched el \<noteq> Some (r3, Some msg)"
proof -
  have w: "workers concurrency = workers 1"
    using assms by (rule workers_coerced)
  have "RunWithOptions tot concurrency sched el = RunWithOptions tot 1 sched el"
    by (simp add: RunWithOptions_def crun_def cinit_def w)
  moreover have "RunForDuration concurrency sched el = RunForDuration 1 sched el"
    by (simp add: RunForDuration_def drun_def dinit_def w)
  moreover have "RunForDurationWithRate concurrency rps sched el =
      RunForDurationWithRate 1 rps sched el"
    by (simp add: RunForDurationWithRate_def rrun_def rinit_def w)
  ultimately show ?thesis
    by (simp only: w workers_one never_an_error simp_thms not_False_eq_True)
qed

theorem C7_concurrency_coerced_witness:
  "(- 3 :: int) < 1 \<and> workers (- 3) = [Idle] \<and>
   RunWithOptions 1 (- 3)
     [GenSendTo 0, CtxCheck 0, Attempt 0 (Response 200), GenLoopEnd, RangeEnd 0] 5 =
     Some ((new_report 1)\<lparr>Duration := 5, Succeeded200 := 1, StatusCounts := [200 \<mapsto> 1]\<rparr>,
           None)"
proof -
  have h: "(- 3 :: int) < 1" by simp
  show ?thesis
    using h sample_count_run
      C7_concurrency_coerced [OF h, of 1
        "[GenSendTo 0, CtxCheck 0, Attempt 0 (Response 200), GenLoopEnd, RangeEnd 0]" 5]
    by simp
qed

text \<open>
  C8 (as stated): in the paced mode the permit queue never holds more than one permit. It
  fails: two ticks, each passed on by the generator before any worker receives, leave two
  permits in \<open>jobs\<close>.
\<close>

theorem C8_counterexample:
  "\<not> jobs_len (rrun 1 [Tick, GenSelTick, GenSend, Tick, GenSelTick, GenSend]) \<le> 1"
  by (simp add: rrun_def rinit_def jobs_cap_def)

text \<open>
  C8 (amended): the permit queue never holds more than 1024 permits, the capacity of
  \<open>jobs\<close>, and it can hold that many. Once the generator has returned it stays returned and no step adds a permit;
  and whenever the deadline has fired or the context is done, the generator's select can
  take that branch, on which it returns.
\<close>

theorem C8_permit_queue:
  "jobs_len (rrun c sched) \<le> 1024 \<and>
   jobs_len (rrun c (concat (replicate 1024 [Tick, GenSelTick, GenSend]))) = 1024 \<and>
   (gen s = GDone \<longrightarrow> gen (rstep s e) = GDone \<and> jobs_len (rstep s e) \<le> jobs_len s) \<and>
   (gen s' \<noteq> GDone \<and> end_ch s' = Fired \<longrightarrow> gen (rstep s' GenSelEnd) = GDone) \<and>
   (gen s'' \<noteq> GDone \<and> ctx_done s'' \<longrightarrow> gen (rstep s'' GenSelCtx) = GDone)"
  using jobs_bound [of c sched] jobs_full [of c] gen_done_step [of s e]
    gen_observes(1) [of s'] gen_observes(2) [of s'']
  by blast

theorem C8_permit_queue_witness:
  "gen (rrun 1 [Deadline, GenSelEnd]) = GDone \<and>
   gen (rstep (rrun 1 [Deadline, GenSelEnd]) GenSend) = GDone \<and>
   jobs_len (rstep (rrun 1 [Deadline, GenSelEnd]) GenSend) \<le>
     jobs_len (rrun 1 [Deadline, GenSelEnd]) \<and>
   gen (rrun 1 [Deadline]) \<noteq> GDone \<and> end_ch (rrun 1 [Deadline]) = Fired \<and>
   gen (rstep (rrun 1 [Deadline]) GenSelEnd) = GDone \<and>
   gen (rrun 1 [Cancel]) \<noteq> GDone \<and> ctx_done (rrun 1 [Cancel]) \<and>
   gen (rstep (rrun 1 [Cancel]) GenSelCtx) = GDone"
proof -
  have a: "gen (rrun 1 [Deadline, GenSelEnd]) = GDone"
    by (simp add: rrun_def rinit_def)
  have b: "gen (rrun 1 [Deadline]) \<noteq> GDone \<and> end_ch (rrun 1 [Deadline]) = Fired"
    by (simp add: rrun_def rinit_def)
  have c: "gen (rrun 1 [Cancel]) \<noteq> GDone \<and> ctx_done (rrun 1 [Cancel])"
    by (simp add: rrun_def rinit_def)
  show ?thesis
    using a b c
      C8_permit_queue [of 1 "[]" "rrun 1 [Deadline, GenSelEnd]" GenSend
        "rrun 1 [Deadline]" "rrun 1 [Cancel]"]
    by blast
qed

text \<open>
  C9: every report returned by \<open>RunForDuration\<close> or \<open>RunForDurationWithRate\<close> has
  \<open>TotalRequests\<close> equal to the sum of the histogram alone; an attempt that fails in
  \<open>http.NewRequestWithContext\<close> or in \<open>client.Do\<close> adds one to \<open>Errors\<close> and leaves
  \<open>TotalRequests\<close> as it was.
\<close>

theorem C9_timed_total:
  "(RunForDuration c sched el = Some (r, err) \<longrightarrow>
      TotalRequests r = sum_counts (StatusCounts r)) \<and>
   (RunForDurationWithRate c' rps sched' el' = Some (r', err') \<longrightarrow>
      TotalRequests r' = sum_counts (StatusCounts r')) \<and>
   TotalRequests (body_timed DoFailed r0) = TotalRequests r0 \<and>
   Errors (body_timed DoFailed r0) = Errors r0 + 1 \<and>
   TotalRequests (body_timed NewRequestFailed r0) = TotalRequests r0 \<and>
   Errors (body_timed NewRequestFailed r0) = Errors r0 + 1"
  using duration_result(3) [of c sched el r err] rate_result(3) [of c' rps sched' el' r' err']
  by (simp add: record_error_def)

theorem C9_timed_total_witness:
  "RunForDuration 1
     [SelDefault 0, Attempt 0 DoFailed, SelDefault 0, Attempt 0 (Response 200), Deadline,
      SelEnd 0] 5 =
     Some ((new_report 0)\<lparr>Duration := 5, TotalRequests := 1, Succeeded200 := 1,
                            StatusCounts := [200 \<mapsto> 1], Errors := 1\<rparr>, None) \<and>
   (1::int) = sum_counts [200 \<mapsto> 1] \<and>
   RunForDurationWithRate 1 (Finite 10)
     [Tick, GenSelTick, GenSend, Recv 0, CtxCheck 0, Attempt 0 (Response 404),
      Deadline, GenSelEnd, RangeEnd 0] 5 =
     Some ((new_report 0)\<lparr>Duration := 5, TotalRequests := 1, StatusCounts := [404 \<mapsto> 1]\<rparr>,
           None) \<and>
   (1::int) = sum_counts [404 \<mapsto> 1]"
proof -
  have a: "RunForDuration 1
     [SelDefault 0, Attempt 0 DoFailed, SelDefault 0, Attempt 0 (Response 200), Deadline,
      SelEnd 0] 5 =
     Some ((new_report 0)\<lparr>Duration := 5, TotalRequests := 1, Succeeded200 := 1,
                            StatusCounts := [200 \<mapsto> 1], Errors := 1\<rparr>, None)"
    by (simp add: RunForDuration_def drun_def dinit_def workers_def worker_at_def
        all_exited_def new_report_def record_status_def record_error_def incr_def lookup0_def)
  show ?thesis
    using a sample_rate_run
      C9_timed_total [of 1
        "[SelDefault 0, Attempt 0 DoFailed, SelDefault 0, Attempt 0 (Response 200), Deadline,
          SelEnd 0]" 5
        "(new_report 0)\<lparr>Duration := 5, TotalRequests := 1, Succeeded200 := 1,
                           StatusCounts := [200 \<mapsto> 1], Errors := 1\<rparr>" None
        1 "Finite 10"
        "[Tick, GenSelTick, GenSend, Recv 0, CtxCheck 0, Attempt 0 (Response 404),
          Deadline, GenSelEnd, RangeEnd 0]" 5
        "(new_report 0)\<lparr>Duration := 5, TotalRequests := 1, StatusCounts := [404 \<mapsto> 1]\<rparr>" None]
    by (simp add: new_report_def)
qed

text \<open>
  C10: every report returned by one of the three entry operations has \<open>Succeeded200\<close>
  equal to the histogram's entry for 200, read as 0 when there is none.
\<close>

theorem C10_succeeded200:
  "(RunWithOptions tot c sched el = Some (r, err) \<longrightarrow>
      Succeeded200 r = lookup0 (StatusCounts r) 200) \<and>
   (RunForDuration c' sched' el' = Some (r', err') \<longrightarrow>
      Succeeded200 r' = lookup0 (StatusCounts r') 200) \<and>
   (RunForDurationWithRate c'' rps sched'' el'' = Some (r'', err'') \<longrightarrow>
      Succeeded200 r'' = lookup0 (StatusCounts r'') 200)"
  using count_result(3) [of tot c sched el r err]
    duration_result(2) [of c' sched' el' r' err']
    rate_result(2) [of c'' rps sched'' el'' r'' err'']
  by (simp add: rep_ok_def)

theorem C10_succeeded200_witness:
  "RunWithOptions 1 1
     [GenSendTo 0, CtxCheck 0, Attempt 0 (Response 200), GenLoopEnd, RangeEnd 0] 5 =
     Some ((new_report 1)\<lparr>Duration := 5, Succeeded200 := 1, StatusCounts := [200 \<mapsto> 1]\<rparr>,
           None) \<and>
   (1::int) = lookup0 [200 \<mapsto> 1] 200 \<and>
   RunForDuration 1 [SelDefault 0, Attempt 0 (Response 200), Deadline, SelEnd 0] 5 =
     Some ((new_report 0)\<lparr>Duration := 5, TotalRequests := 1, Succeeded200 := 1,
                            StatusCounts := [200 \<mapsto> 1]\<rparr>, None) \<and>
   RunForDurationWithRate 1 (Finite 10)
     [Tick, GenSelTick, GenSend, Recv 0, CtxCheck 0, Attempt 0 (Response 404),
      Deadline, GenSelEnd, RangeEnd 0] 5 =
     Some ((new_report 0)\<lparr>Duration := 5, TotalRequests := 1, StatusCounts := [404 \<mapsto> 1]\<rparr>,
           None) \<and>
   (0::int) = lookup0 [404 \<mapsto> 1] 200"
  using C10_succeeded200 [of 1 1
      "[GenSendTo 0, CtxCheck 0, Attempt 0 (Response 200), GenLoopEnd, RangeEnd 0]" 5
      "(new_report 1)\<lparr>Duration := 5, Succeeded200 := 1, StatusCounts := [200 \<mapsto> 1]\<rparr>" None
      1 "[SelDefault 0, Attempt 0 (Response 200), Deadline, SelEnd 0]" 5
      "(new_report 0)\<lparr>Duration := 5, TotalRequests := 1, Succeeded200 := 1,
                         StatusCounts := [200 \<mapsto> 1]\<rparr>" None
      1 "Finite 10"
      "[Tick, GenSelTick, GenSend, Recv 0, CtxCheck 0, Attempt 0 (Response 404),
        Deadline, GenSelEnd, RangeEnd 0]" 5
      "(new_report 0)\<lparr>Duration := 5, TotalRequests := 1, StatusCounts := [404 \<mapsto> 1]\<rparr>" None]
    sample_count_run sample_duration_run sample_rate_run
  by (simp add: new_report_def)

end
